theory Spec2Isabelle
  imports Complex_Main
begin

section \<open>Geometry primitives (src/types/grid.ts)\<close>

text \<open>
  JavaScript numbers are modelled as rationals: every quantity of the layout engine is an
  integer pixel value of the host or is obtained from one by addition, subtraction and
  halving. IEEE rounding, NaN and the infinities are outside the model.
\<close>

record rectangle =
  x :: rat
  y :: rat
  width :: rat
  height :: rat

text \<open>
  \<^verbatim>\<open>interface Inset { top; right; bottom; left }\<close>. The fields carry a suffix, since
  \<open>top\<close> is a constant of HOL and \<open>left\<close>, \<open>right\<close> name the children of a node below.
\<close>

record inset =
  top_inset :: rat
  right_inset :: rat
  bottom_inset :: rat
  left_inset :: rat

text \<open>The pointer position \<^verbatim>\<open>{ x: number, y: number }\<close> handed to \<^verbatim>\<open>pushTree\<close>.\<close>

record point =
  px :: rat
  py :: rat

section \<open>Tree node model (src/util/tile.ts, src/types/tree.ts)\<close>

datatype split = Horizontal | Vertical

text \<open>
  \<^verbatim>\<open>class Tile { id: number; isNew: boolean }\<close>. Every call site constructs a tile as
  \<^verbatim>\<open>new Tile(id)\<close>, which leaves \<^verbatim>\<open>isNew\<close> undefined (\<open>None\<close>). The field \<^verbatim>\<open>id\<close> is
  \<open>tile_id\<close> here (\<open>id\<close> is the identity function of HOL).
\<close>

record tile =
  tile_id :: int
  isNew :: "bool option"

text \<open>\<^verbatim>\<open>class Container { split; constraint?: number }\<close>; the constructor sets \<^verbatim>\<open>split\<close> only.\<close>

record container =
  split :: split
  constraint :: "rat option"

datatype payload = Tile tile | Container container

text \<open>\<^verbatim>\<open>Node<T>\<close>: a payload \<^verbatim>\<open>data\<close> and the optional children \<^verbatim>\<open>left\<close> and \<^verbatim>\<open>right\<close>.\<close>

datatype node = Node (data: payload) (left: "node option") (right: "node option")

definition newTile :: "int \<Rightarrow> tile" where
  "newTile i = \<lparr>tile_id = i, isNew = None\<rparr>"

definition newContainer :: "split \<Rightarrow> container" where
  "newContainer s = \<lparr>split = s, constraint = None\<rparr>"

text \<open>The object literal \<^verbatim>\<open>{ data: d }\<close>: a node without children.\<close>

definition leaf :: "payload \<Rightarrow> node" where
  "leaf d = Node d None None"

text \<open>\<^verbatim>\<open>n.data instanceof Tile && n.data.id === i\<close>\<close>

definition isTileWithId :: "node \<Rightarrow> int \<Rightarrow> bool" where
  "isTileWithId n i = (case data n of Tile t \<Rightarrow> tile_id t = i | Container c \<Rightarrow> False)"

text \<open>The two exceptions of the tree walks.\<close>

datatype error =
  NotHandled \<comment> \<open>\<^verbatim>\<open>throw new Error("Not handled")\<close>\<close>
| TypeError \<comment> \<open>a method call on \<^verbatim>\<open>undefined\<close>, after a failed \<^verbatim>\<open>windows.find\<close>\<close>

section \<open>Area-split helper (DesktopManager.#splitArea, #pointInRectangle)\<close>

definition dimension :: "split \<Rightarrow> rectangle \<Rightarrow> rat" where
  "dimension s area = (case s of Horizontal \<Rightarrow> height area | Vertical \<Rightarrow> width area)"

definition set_dimension :: "split \<Rightarrow> rat \<Rightarrow> rectangle \<Rightarrow> rectangle" where
  "set_dimension s v area =
     (case s of Horizontal \<Rightarrow> area\<lparr>height := v\<rparr> | Vertical \<Rightarrow> area\<lparr>width := v\<rparr>)"

definition position :: "split \<Rightarrow> rectangle \<Rightarrow> rat" where
  "position s area = (case s of Horizontal \<Rightarrow> y area | Vertical \<Rightarrow> x area)"

definition set_position :: "split \<Rightarrow> rat \<Rightarrow> rectangle \<Rightarrow> rectangle" where
  "set_position s v area =
     (case s of Horizontal \<Rightarrow> area\<lparr>y := v\<rparr> | Vertical \<Rightarrow> area\<lparr>x := v\<rparr>)"

record split_result =
  left_area :: rectangle
  right_area :: rectangle
  container_used :: container

text \<open>
  \<^verbatim>\<open>if (container.constraint)\<close> tests JavaScript truthiness: an absent constraint and the
  number 0 both take the \<^verbatim>\<open>else\<close> branch.
\<close>

definition splitArea :: "rectangle \<Rightarrow> container option \<Rightarrow> split_result" where
  "splitArea area copt =
     (let leftArea = \<lparr>x = x area, y = y area, width = width area, height = height area\<rparr>;
          rightArea = \<lparr>x = x area, y = y area, width = width area, height = height area\<rparr>;
          c = (case copt of
                 None \<Rightarrow> newContainer (if height area > width area then Horizontal else Vertical)
               | Some c' \<Rightarrow> c');
          s = split c;
          half = dimension s area / 2;
          bisected = \<lparr>left_area = set_dimension s half leftArea,
                      right_area = set_position s (position s rightArea + half)
                                     (set_dimension s half rightArea),
                      container_used = c\<rparr>
      in case constraint c of
           None \<Rightarrow> bisected
         | Some l \<Rightarrow>
             if l \<noteq> 0 then
               \<lparr>left_area = set_dimension s l leftArea,
                right_area = set_position s (position s rightArea + l)
                               (set_dimension s (dimension s area - l) rightArea),
                container_used = c\<rparr>
             else bisected)"

definition pointInRectangle :: "point \<Rightarrow> rectangle \<Rightarrow> bool" where
  "pointInRectangle p r =
     (px p \<ge> x r \<and> px p \<le> x r + width r \<and> py p \<ge> y r \<and> py p \<le> y r + height r)"

section \<open>Work-area calculator (DesktopManager.workArea)\<close>

text \<open>
  Modelled from the spec: \<^verbatim>\<open>Math.clamp\<close> is an extension of the host shell, not part of the
  repository; the spec reads it as clamping the value into \<open>[lower, upper]\<close>.
\<close>

definition clamp :: "rat \<Rightarrow> rat \<Rightarrow> rat \<Rightarrow> rat" where
  "clamp v lower upper = min (max v lower) upper"

text \<open>
  The user inset, the raw work area of the monitor and the spacing are read from the
  preferences and the host; they are the three parameters here.
\<close>

definition workArea :: "inset \<Rightarrow> rectangle \<Rightarrow> rat \<Rightarrow> rectangle" where
  "workArea ins raw spacing =
     (let t = clamp (top_inset ins) 0 (of_int \<lfloor>height raw / 2\<rfloor>);
          b = clamp (bottom_inset ins) 0 (of_int \<lfloor>height raw / 2\<rfloor>);
          l = clamp (left_inset ins) 0 (of_int \<lfloor>width raw / 2\<rfloor>);
          r = clamp (right_inset ins) 0 (of_int \<lfloor>width raw / 2\<rfloor>)
      in \<lparr>x = x raw + (l - spacing),
          y = y raw + (t - spacing),
          width = width raw - (l + r - spacing * 2),
          height = height raw - (t + b - spacing * 2)\<rparr>)"

section \<open>Insertion (DesktopManager.pushTree)\<close>

text \<open>
  The source mutates the node in place and returns nothing; the model returns the node
  after the call. A tree never shares a node between two parents, so the value returned
  is the object the caller still holds. The work area is always passed here: the caller
  without one computes it with \<open>workArea\<close>. A walk that throws returns the error only; the
  partly updated tree is not part of the result.
\<close>

fun pushTree :: "node \<Rightarrow> point \<Rightarrow> tile \<Rightarrow> rectangle \<Rightarrow> error + node" where
  "pushTree (Node d l r) p newT area =
     (if \<not> pointInRectangle p area then Inr (Node d l r)
      else if (case d of Container c \<Rightarrow> l = None \<and> r = None | Tile t \<Rightarrow> False)
      then Inr (Node (Tile newT) l r)
      else case d of
        Tile temp \<Rightarrow>
          (if \<not> pointInRectangle p area then Inr (Node d l r)
           else let res = splitArea area None
                in if pointInRectangle p (left_area res)
                   then Inr (Node (Container (container_used res))
                               (Some (leaf (Tile newT))) (Some (leaf (Tile temp))))
                   else Inr (Node (Container (container_used res))
                               (Some (leaf (Tile temp))) (Some (leaf (Tile newT)))))
      | Container c \<Rightarrow>
          (case l of
             None \<Rightarrow> Inl NotHandled
           | Some lt \<Rightarrow>
              (case r of
                 None \<Rightarrow> Inl NotHandled
               | Some rt \<Rightarrow>
                  (let res = splitArea area (Some c)
                   in case pushTree lt p newT (left_area res) of
                        Inl e \<Rightarrow> Inl e
                      | Inr lt' \<Rightarrow>
                         (case pushTree rt p newT (right_area res) of
                            Inl e \<Rightarrow> Inl e
                          | Inr rt' \<Rightarrow> Inr (Node d (Some lt') (Some rt')))))))"

section \<open>Removal (DesktopManager.removeId)\<close>

text \<open>
  A populated container first normalises its container children, then returns the
  sibling of a matching tile child. Otherwise control falls through to the last test,
  which turns a matching tile node into an empty Horizontal container.
\<close>

fun removeId :: "node \<Rightarrow> int \<Rightarrow> node" where
  "removeId (Node d l r) i =
     (case d of
        Container c \<Rightarrow>
          (case l of
             None \<Rightarrow> Node d l r
           | Some lt \<Rightarrow>
              (case r of
                 None \<Rightarrow> Node d l r
               | Some rt \<Rightarrow>
                  (let lt' = (case data lt of Container c1 \<Rightarrow> removeId lt i | Tile t1 \<Rightarrow> lt);
                       rt' = (case data rt of Container c2 \<Rightarrow> removeId rt i | Tile t2 \<Rightarrow> rt)
                   in if isTileWithId lt' i then rt'
                      else if isTileWithId rt' i then lt'
                      else Node d (Some lt') (Some rt'))))
      | Tile t \<Rightarrow>
          (if tile_id t = i then Node (Container (newContainer Horizontal)) l r
           else Node d l r))"

section \<open>Tree observations\<close>

text \<open>All tiles of a tree, payload first, then the left and the right subtree.\<close>

fun tiles :: "node \<Rightarrow> tile list" where
  "tiles (Node d l r) =
     (case d of Tile t \<Rightarrow> [t] | Container c \<Rightarrow> [])
     @ (case l of None \<Rightarrow> [] | Some lt \<Rightarrow> tiles lt)
     @ (case r of None \<Rightarrow> [] | Some rt \<Rightarrow> tiles rt)"

definition tileIds :: "node \<Rightarrow> int list" where
  "tileIds t = map tile_id (tiles t)"

definition countTiles :: "node \<Rightarrow> nat" where
  "countTiles t = length (tiles t)"

text \<open>The orientations of all containers of a tree, in the same order.\<close>

fun splits :: "node \<Rightarrow> split list" where
  "splits (Node d l r) =
     (case d of Tile t \<Rightarrow> [] | Container c \<Rightarrow> [split c])
     @ (case l of None \<Rightarrow> [] | Some lt \<Rightarrow> splits lt)
     @ (case r of None \<Rightarrow> [] | Some rt \<Rightarrow> splits rt)"

text \<open>
  The invariant set of the data model: a tile has no children, a container has both;
  the empty container is allowed at the root only; tile identifiers are unique.
\<close>

fun populated :: "node \<Rightarrow> bool" where
  "populated (Node d l r) =
     (case d of
        Tile t \<Rightarrow> l = None \<and> r = None
      | Container c \<Rightarrow>
          (case l of None \<Rightarrow> False
           | Some lt \<Rightarrow> (case r of None \<Rightarrow> False | Some rt \<Rightarrow> populated lt \<and> populated rt)))"

definition emptyContainer :: "node \<Rightarrow> bool" where
  "emptyContainer t =
     (case data t of Container c \<Rightarrow> left t = None \<and> right t = None | Tile u \<Rightarrow> False)"

definition valid :: "node \<Rightarrow> bool" where
  "valid t = ((emptyContainer t \<or> populated t) \<and> distinct (tileIds t))"

section \<open>Host desktop and user preferences\<close>

text \<open>
  What the engine consumes from the host: windows with their attributes, the list of
  windows of every workspace, the raw work area of every monitor (of the active
  workspace), the current monitor, and the two integer settings. Windows are host
  objects: a list of windows is a list of references into \<open>objects\<close>, and moving a window
  updates the object, so that every list holding the reference sees the new frame.
\<close>

datatype frame_type = NORMAL | DIALOG | MODAL_DIALOG | UTILITY | MENU | BORDER | ATTACHED

record window =
  get_id :: int
  minimized :: bool
  get_monitor :: int
  get_frame_type :: frame_type
  title :: "string option"
  get_frame_rect :: rectangle

type_synonym ref = nat

text \<open>The calls the engine makes on a window, in order.\<close>

datatype host_call =
  Unmaximize ref
| MoveFrame ref rat rat
| MoveResizeFrame ref rat rat rat rat

record host =
  gaps_in :: int
  gaps_out :: int
  get_work_area_for_monitor :: "nat \<Rightarrow> rectangle"
  get_n_monitors :: nat
  get_current_monitor :: nat
  active_workspace :: nat
  list_windows :: "ref list list"
  objects :: "ref \<Rightarrow> window"
  calls :: "host_call list"

text \<open>
  The host's side of the three window calls: the frame takes the requested geometry.
  Size hints of real windows are outside the model.
\<close>

definition unmaximize :: "ref \<Rightarrow> host \<Rightarrow> host" where
  "unmaximize target h = h\<lparr>calls := calls h @ [Unmaximize target]\<rparr>"

definition move_frame :: "ref \<Rightarrow> rat \<Rightarrow> rat \<Rightarrow> host \<Rightarrow> host" where
  "move_frame target nx ny h =
     h\<lparr>objects := (objects h)(target := (objects h target)
           \<lparr>get_frame_rect := (get_frame_rect (objects h target))\<lparr>x := nx, y := ny\<rparr>\<rparr>),
       calls := calls h @ [MoveFrame target nx ny]\<rparr>"

definition move_resize_frame :: "ref \<Rightarrow> rat \<Rightarrow> rat \<Rightarrow> rat \<Rightarrow> rat \<Rightarrow> host \<Rightarrow> host" where
  "move_resize_frame target nx ny w ht h =
     h\<lparr>objects := (objects h)(target := (objects h target)
           \<lparr>get_frame_rect := \<lparr>x = nx, y = ny, width = w, height = ht\<rparr>\<rparr>),
       calls := calls h @ [MoveResizeFrame target nx ny w ht]\<rparr>"

text \<open>UserPreferences.getInset and getSpacing.\<close>

definition getInset :: "host \<Rightarrow> inset" where
  "getInset h =
     (let gapsOut = of_int (gaps_out h)
      in \<lparr>top_inset = gapsOut, right_inset = gapsOut, bottom_inset = gapsOut,
          left_inset = gapsOut\<rparr>)"

definition getSpacing :: "host \<Rightarrow> rat" where
  "getSpacing h = of_int (gaps_in h)"

text \<open>\<^verbatim>\<open>workArea(monitorIdx)\<close> as the desktop manager calls it, on the host's values.\<close>

definition hostWorkArea :: "host \<Rightarrow> nat \<Rightarrow> rectangle" where
  "hostWorkArea h monitorIdx =
     workArea (getInset h) (get_work_area_for_monitor h monitorIdx) (getSpacing h)"

text \<open>\<^verbatim>\<open>TitleBlacklist = [/;BDHF$/]\<close>: the title ends with \<^verbatim>\<open>;BDHF\<close>.\<close>

definition endsWith :: "string \<Rightarrow> string \<Rightarrow> bool" where
  "endsWith s t = (length s \<le> length t \<and> drop (length t - length s) t = s)"

definition TitleBlacklist :: "(string \<Rightarrow> bool) list" where
  "TitleBlacklist = [endsWith '';BDHF'']"

text \<open>The window filter of \<^verbatim>\<open>#initTree\<close> and \<^verbatim>\<open>autotile\<close>.\<close>

definition eligible :: "host \<Rightarrow> nat \<Rightarrow> ref \<Rightarrow> bool" where
  "eligible h monitorIdx w =
     (let win = objects h w
      in \<not> (minimized win \<or> get_monitor win \<noteq> int monitorIdx
             \<or> get_frame_type win \<noteq> NORMAL
             \<or> list_ex (\<lambda>p. p (case title win of None \<Rightarrow> [] | Some s \<Rightarrow> s)) TitleBlacklist))"

section \<open>Fit (DesktopManager.#moveResize, #fit, #fitTree, autotile)\<close>

definition moveResize :: "ref \<Rightarrow> rat \<Rightarrow> rat \<Rightarrow> (rat \<times> rat) option \<Rightarrow> host \<Rightarrow> host" where
  "moveResize target x0 y0 fsize h =
     (let h1 = unmaximize target h;
          spacing = getSpacing h1;
          nx = x0 + spacing;
          ny = y0 + spacing;
          h2 = move_frame target nx ny h1
      in case fsize of
           None \<Rightarrow> h2
         | Some (w, ht) \<Rightarrow> move_resize_frame target nx ny (w - spacing * 2) (ht - spacing * 2) h2)"

text \<open>
  \<^verbatim>\<open>#fit\<close> receives the result of \<^verbatim>\<open>windows.find(...)!\<close>, which is \<^verbatim>\<open>undefined\<close> (\<open>None\<close>) when no
  window has the identifier; \<^verbatim>\<open>target.get_frame_rect()\<close> then throws. The easing of the
  window actor after the move is visual only and is not modelled.
\<close>

fun fit :: "ref option \<Rightarrow> rectangle \<Rightarrow> host \<Rightarrow> error + host" where
  "fit None r h = Inl TypeError"
| "fit (Some target) r h =
     (let window = get_frame_rect (objects h target)
      in if x window = x r \<and> y window = y r
            \<and> width window = width r \<and> height window = height r
         then Inr h
         else Inr (moveResize target (x r) (y r) (Some (width r, height r)) h))"

text \<open>\<^verbatim>\<open>windows.find(window => window.get_id() === id)\<close>\<close>

definition findWindow :: "ref list \<Rightarrow> int \<Rightarrow> host \<Rightarrow> ref option" where
  "findWindow windows i h = List.find (\<lambda>w. get_id (objects h w) = i) windows"

text \<open>
  The block of \<^verbatim>\<open>#fitTree\<close> that computes \<^verbatim>\<open>leftArea\<close> and \<^verbatim>\<open>rightArea\<close> for the children of
  a populated container. It repeats the body of \<^verbatim>\<open>#splitArea\<close> inline.
\<close>

definition fitAreas :: "container \<Rightarrow> rectangle \<Rightarrow> rectangle \<times> rectangle" where
  "fitAreas c area =
     (let leftArea = \<lparr>x = x area, y = y area, width = width area, height = height area\<rparr>;
          rightArea = \<lparr>x = x area, y = y area, width = width area, height = height area\<rparr>;
          s = split c;
          half = dimension s area / 2;
          bisected = (set_dimension s half leftArea,
                      set_position s (position s rightArea + half)
                        (set_dimension s half rightArea))
      in case constraint c of
           None \<Rightarrow> bisected
         | Some l \<Rightarrow>
             if l \<noteq> 0 then
               (set_dimension s l leftArea,
                set_position s (position s rightArea + l)
                  (set_dimension s (dimension s area - l) rightArea))
             else bisected)"

fun fitTree :: "node \<Rightarrow> rectangle \<Rightarrow> ref list \<Rightarrow> host \<Rightarrow> error + host" where
  "fitTree (Node d l r) area windows h =
     (if (case d of Container c \<Rightarrow> l = None \<and> r = None | Tile t \<Rightarrow> False) then Inr h
      else case d of
        Tile t \<Rightarrow> fit (findWindow windows (tile_id t) h) area h
      | Container c \<Rightarrow>
          (case l of
             None \<Rightarrow> Inl NotHandled
           | Some lt \<Rightarrow>
              (case r of
                 None \<Rightarrow> Inl NotHandled
               | Some rt \<Rightarrow>
                  (let (leftArea, rightArea) = fitAreas c area
                   in case (case data lt of
                              Tile t1 \<Rightarrow> fit (findWindow windows (tile_id t1) h) leftArea h
                            | Container c1 \<Rightarrow> fitTree lt leftArea windows h) of
                        Inl e \<Rightarrow> Inl e
                      | Inr h1 \<Rightarrow>
                         (case data rt of
                            Tile t2 \<Rightarrow> fit (findWindow windows (tile_id t2) h1) rightArea h1
                          | Container c2 \<Rightarrow> fitTree rt rightArea windows h1)))))"

text \<open>The active workspace of the host always exists: its index is within \<open>list_windows\<close>.\<close>

definition autotile :: "node \<Rightarrow> host \<Rightarrow> error + host" where
  "autotile tree h =
     (let monitorIdx = get_current_monitor h;
          area = hostWorkArea h monitorIdx;
          windows = filter (eligible h monitorIdx) (list_windows h ! active_workspace h)
      in fitTree tree area windows h)"

section \<open>Tree builder (App.#initTree)\<close>

text \<open>The orientation given to a new split container at insertion index \<open>index\<close>.\<close>

definition initSplit :: "nat \<Rightarrow> rectangle \<Rightarrow> split" where
  "initSplit index area =
     (if index mod 2 = 0 \<and> width area > height area then Horizontal else Vertical)"

text \<open>
  The loop over the windows of one slot. The cursor \<^verbatim>\<open>root\<close> only ever moves down to the
  right child, so the loop is a recursion that returns the rebuilt node under the cursor.
\<close>

fun initLoop :: "host \<Rightarrow> node \<Rightarrow> ref list \<Rightarrow> nat \<Rightarrow> rectangle \<Rightarrow> node" where
  "initLoop h root' [] index area = root'"
| "initLoop h (Node d l r) (window # windows) index area =
     (case d of
        Container c \<Rightarrow>
          (case r of
             None \<Rightarrow>
               initLoop h (Node (Tile (newTile (get_id (objects h window)))) l r)
                 windows (index + 1) area
           | Some rt \<Rightarrow> Node d l (Some (initLoop h rt windows (index + 1) area)))
      | Tile t \<Rightarrow>
          Node (Container (newContainer (initSplit index area)))
            (Some (leaf (Tile (newTile (tile_id t)))))
            (Some (initLoop h (leaf (Tile (newTile (get_id (objects h window)))))
                     windows (index + 1) area)))"

text \<open>
  The forest \<^verbatim>\<open>this.#tree[workspace][monitor]\<close> is an array of arrays of node references.
  \<^verbatim>\<open>Array(monitorCount).fill({ data: ... })\<close> evaluates the object literal once per
  workspace and stores that one reference in every column of the row: the root object of
  workspace \<open>w\<close> has address \<open>w\<close> in the store \<open>roots\<close>. Nodes below a root are created by
  the loop and are reachable through their parent only; they are values.
\<close>

record forest =
  slots :: "ref list list"
  roots :: "node list"

definition emptyForest :: "nat \<Rightarrow> nat \<Rightarrow> forest" where
  "emptyForest workspaceCount monitorCount =
     \<lparr>slots = map (\<lambda>w. replicate monitorCount w) [0..<workspaceCount],
      roots = replicate workspaceCount (leaf (Container (newContainer Horizontal)))\<rparr>"

text \<open>The node a slot refers to.\<close>

definition slotTree :: "forest \<Rightarrow> nat \<Rightarrow> nat \<Rightarrow> node" where
  "slotTree f workspaceIdx monitorIdx = roots f ! (slots f ! workspaceIdx ! monitorIdx)"

fun initWorkspaces ::
  "nat \<Rightarrow> rectangle \<Rightarrow> nat list \<Rightarrow> forest \<times> host \<Rightarrow> error + forest \<times> host" where
  "initWorkspaces monitorIdx area [] s = Inr s"
| "initWorkspaces monitorIdx area (workspaceIdx # rest) (f, h) =
     (let windows = filter (eligible h monitorIdx) (list_windows h ! workspaceIdx);
          a = slots f ! workspaceIdx ! monitorIdx;
          f' = f\<lparr>roots := (roots f)[a := initLoop h (roots f ! a) windows 0 area]\<rparr>
      in case autotile (slotTree f' workspaceIdx monitorIdx) h of
           Inl e \<Rightarrow> Inl e
         | Inr h' \<Rightarrow> initWorkspaces monitorIdx area rest (f', h'))"

fun initMonitors :: "nat list \<Rightarrow> forest \<times> host \<Rightarrow> error + forest \<times> host" where
  "initMonitors [] s = Inr s"
| "initMonitors (monitorIdx # rest) (f, h) =
     (let area = hostWorkArea h monitorIdx
      in case initWorkspaces monitorIdx area [0..<length (list_windows h)] (f, h) of
           Inl e \<Rightarrow> Inl e
         | Inr s' \<Rightarrow> initMonitors rest s')"

definition initTree :: "host \<Rightarrow> error + forest \<times> host" where
  "initTree h =
     (let workspaceCount = length (list_windows h);
          monitorCount = get_n_monitors h
      in initMonitors [0..<monitorCount] (emptyForest workspaceCount monitorCount, h))"

section \<open>Concrete inputs\<close>

text \<open>A Vertical container over the tiles 1 and 2.\<close>

definition tree12 :: node where
  "tree12 = Node (Container (newContainer Vertical))
              (Some (leaf (Tile (newTile 1)))) (Some (leaf (Tile (newTile 2))))"

text \<open>
  A desktop with one workspace and two monitors side by side; its only window, with
  identifier 7, is on monitor 1, which is the current monitor. Spacing 10, inset 20.
\<close>

definition window7 :: window where
  "window7 = \<lparr>get_id = 7, minimized = False, get_monitor = 1, get_frame_type = NORMAL,
              title = Some ''term'',
              get_frame_rect = \<lparr>x = 1920, y = 0, width = 100, height = 100\<rparr>\<rparr>"

definition desk :: host where
  "desk = \<lparr>gaps_in = 10, gaps_out = 20,
           get_work_area_for_monitor =
             (\<lambda>m. if m = 0 then \<lparr>x = 0, y = 0, width = 1920, height = 1080\<rparr>
                   else \<lparr>x = 1920, y = 0, width = 1920, height = 1080\<rparr>),
           get_n_monitors = 2, get_current_monitor = 1, active_workspace = 0,
           list_windows = [[0]], objects = (\<lambda>a. window7), calls = []\<rparr>"

definition wideArea :: rectangle where
  "wideArea = \<lparr>x = 0, y = 0, width = 1000, height = 600\<rparr>"

text \<open>
  A desktop with one workspace and one portrait monitor, \<open>1080\<close> wide and \<open>1920\<close> tall,
  no inset and no spacing. Its three windows, with identifiers 1, 2 and 3, are normal
  windows on monitor 0.
\<close>

definition windowNo :: "int \<Rightarrow> window" where
  "windowNo i = \<lparr>get_id = i, minimized = False, get_monitor = 0, get_frame_type = NORMAL,
                 title = Some ''term'',
                 get_frame_rect = \<lparr>x = 0, y = 0, width = 100, height = 100\<rparr>\<rparr>"

definition portrait :: host where
  "portrait = \<lparr>gaps_in = 0, gaps_out = 0,
               get_work_area_for_monitor = (\<lambda>m. \<lparr>x = 0, y = 0, width = 1080, height = 1920\<rparr>),
               get_n_monitors = 1, get_current_monitor = 0, active_workspace = 0,
               list_windows = [[0, 1, 2]], objects = (\<lambda>a. windowNo (int a + 1)),
               calls = []\<rparr>"

section \<open>Area-split scenarios\<close>

text \<open>
  C6. The area-split helper, given the parent rectangle \<open>{0, 0, 1000, 600}\<close> and a
  Vertical container without constraint, returns left \<open>{0, 0, 500, 600}\<close> and right
  \<open>{500, 0, 500, 600}\<close>; with constraint 300 it returns left \<open>{0, 0, 300, 600}\<close> and right
  \<open>{300, 0, 700, 600}\<close>.
\<close>

theorem splitArea_scenario:
  "left_area (splitArea \<lparr>x = 0, y = 0, width = 1000, height = 600\<rparr>
       (Some \<lparr>split = Vertical, constraint = None\<rparr>))
     = \<lparr>x = 0, y = 0, width = 500, height = 600\<rparr>
   \<and> right_area (splitArea \<lparr>x = 0, y = 0, width = 1000, height = 600\<rparr>
       (Some \<lparr>split = Vertical, constraint = None\<rparr>))
     = \<lparr>x = 500, y = 0, width = 500, height = 600\<rparr>
   \<and> left_area (splitArea \<lparr>x = 0, y = 0, width = 1000, height = 600\<rparr>
       (Some \<lparr>split = Vertical, constraint = Some 300\<rparr>))
     = \<lparr>x = 0, y = 0, width = 300, height = 600\<rparr>
   \<and> right_area (splitArea \<lparr>x = 0, y = 0, width = 1000, height = 600\<rparr>
       (Some \<lparr>split = Vertical, constraint = Some 300\<rparr>))
     = \<lparr>x = 300, y = 0, width = 700, height = 600\<rparr>"
  by (simp add: splitArea_def dimension_def set_dimension_def position_def set_position_def)

lemma fitAreas_zero_Horizontal:
  "fitAreas \<lparr>split = Horizontal, constraint = Some 0\<rparr> area
     = (\<lparr>x = x area, y = y area, width = width area, height = height area / 2\<rparr>,
        \<lparr>x = x area, y = y area + height area / 2, width = width area,
           height = height area / 2\<rparr>)"
  by (simp add: fitAreas_def dimension_def set_dimension_def position_def set_position_def
      Let_def)

lemma fitAreas_zero_Vertical:
  "fitAreas \<lparr>split = Vertical, constraint = Some 0\<rparr> area
     = (\<lparr>x = x area, y = y area, width = width area / 2, height = height area\<rparr>,
        \<lparr>x = x area + width area / 2, y = y area, width = width area / 2,
           height = height area\<rparr>)"
  by (simp add: fitAreas_def dimension_def set_dimension_def position_def set_position_def
      Let_def)

lemma fitAreas_zero_absent:
  "fitAreas \<lparr>split = s, constraint = Some 0\<rparr> area
     = fitAreas \<lparr>split = s, constraint = None\<rparr> area"
  by (simp add: fitAreas_def Let_def)

lemma splitArea_zero_Horizontal:
  "splitArea area (Some \<lparr>split = Horizontal, constraint = Some 0\<rparr>)
     = \<lparr>left_area = \<lparr>x = x area, y = y area, width = width area,
                        height = height area / 2\<rparr>,
        right_area = \<lparr>x = x area, y = y area + height area / 2, width = width area,
                         height = height area / 2\<rparr>,
        container_used = \<lparr>split = Horizontal, constraint = Some 0\<rparr>\<rparr>"
  by (simp add: splitArea_def dimension_def set_dimension_def position_def set_position_def
      Let_def)

lemma splitArea_zero_Vertical:
  "splitArea area (Some \<lparr>split = Vertical, constraint = Some 0\<rparr>)
     = \<lparr>left_area = \<lparr>x = x area, y = y area, width = width area / 2,
                        height = height area\<rparr>,
        right_area = \<lparr>x = x area + width area / 2, y = y area, width = width area / 2,
                         height = height area\<rparr>,
        container_used = \<lparr>split = Vertical, constraint = Some 0\<rparr>\<rparr>"
  by (simp add: splitArea_def dimension_def set_dimension_def position_def set_position_def
      Let_def)

lemma splitArea_zero_absent:
  "left_area (splitArea area (Some \<lparr>split = s, constraint = Some 0\<rparr>))
     = left_area (splitArea area (Some \<lparr>split = s, constraint = None\<rparr>))
   \<and> right_area (splitArea area (Some \<lparr>split = s, constraint = Some 0\<rparr>))
     = right_area (splitArea area (Some \<lparr>split = s, constraint = None\<rparr>))"
  by (simp add: splitArea_def Let_def)

lemma fitTree_zero_absent:
  "fitTree (Node (Container \<lparr>split = s, constraint = Some 0\<rparr>) l r) area windows h
     = fitTree (Node (Container \<lparr>split = s, constraint = None\<rparr>) l r) area windows h"
  by (cases l; cases r) (simp_all add: fitAreas_zero_absent)

lemma fitTree_zero_Horizontal:
  "fitTree (Node (Container \<lparr>split = Horizontal, constraint = Some 0\<rparr>)
        (Some (leaf (Tile a))) (Some (leaf (Tile b)))) area windows h
     = (case fit (findWindow windows (tile_id a) h)
               \<lparr>x = x area, y = y area, width = width area, height = height area / 2\<rparr> h of
          Inl e \<Rightarrow> Inl e
        | Inr h1 \<Rightarrow>
            fit (findWindow windows (tile_id b) h1)
              \<lparr>x = x area, y = y area + height area / 2, width = width area,
                 height = height area / 2\<rparr> h1)"
  by (simp add: leaf_def fitAreas_zero_Horizontal cong: sum.case_cong)

lemma fitTree_zero_Vertical:
  "fitTree (Node (Container \<lparr>split = Vertical, constraint = Some 0\<rparr>)
        (Some (leaf (Tile a))) (Some (leaf (Tile b)))) area windows h
     = (case fit (findWindow windows (tile_id a) h)
               \<lparr>x = x area, y = y area, width = width area / 2, height = height area\<rparr> h of
          Inl e \<Rightarrow> Inl e
        | Inr h1 \<Rightarrow>
            fit (findWindow windows (tile_id b) h1)
              \<lparr>x = x area + width area / 2, y = y area, width = width area / 2,
                 height = height area\<rparr> h1)"
  by (simp add: leaf_def fitAreas_zero_Vertical cong: sum.case_cong)

lemma fitTree_zero_portrait:
  "(case fitTree (Node (Container \<lparr>split = Vertical, constraint = Some 0\<rparr>)
            (Some (leaf (Tile (newTile 1)))) (Some (leaf (Tile (newTile 2)))))
          \<lparr>x = 0, y = 0, width = 1000, height = 600\<rparr> [0, 1] portrait of
      Inl e \<Rightarrow> False
    | Inr h1 \<Rightarrow>
        get_frame_rect (objects h1 0) = \<lparr>x = 0, y = 0, width = 500, height = 600\<rparr>
        \<and> get_frame_rect (objects h1 1) = \<lparr>x = 500, y = 0, width = 500, height = 600\<rparr>)"
  by (simp add: leaf_def newTile_def fitAreas_zero_Vertical findWindow_def portrait_def
      windowNo_def moveResize_def unmaximize_def move_frame_def move_resize_frame_def
      getSpacing_def)

text \<open>
  C10. A container constraint equal to 0 is treated exactly as an absent constraint. For
  every parent rectangle, the area-split helper and the fit walk bisect the split
  dimension: a Horizontal container gives both children the parent's \<open>x\<close>, \<open>y\<close> and width
  and half of its height, the right child moved down by that half; a Vertical container
  gives both children the parent's \<open>x\<close>, \<open>y\<close> and height and half of its width, the right
  child moved right by that half. The left child does not get a zero-sized rectangle:
  on \<open>{0, 0, 1000, 600}\<close>, split Vertical with constraint 0, the children are
  \<open>{0, 0, 500, 600}\<close> and \<open>{500, 0, 500, 600}\<close>, and a fit walk over two tiles gives their
  windows these two frames.
\<close>

theorem zero_constraint_bisects:
  "splitArea area (Some \<lparr>split = Horizontal, constraint = Some 0\<rparr>)
     = \<lparr>left_area = \<lparr>x = x area, y = y area, width = width area,
                        height = height area / 2\<rparr>,
        right_area = \<lparr>x = x area, y = y area + height area / 2, width = width area,
                         height = height area / 2\<rparr>,
        container_used = \<lparr>split = Horizontal, constraint = Some 0\<rparr>\<rparr>
   \<and> splitArea area (Some \<lparr>split = Vertical, constraint = Some 0\<rparr>)
     = \<lparr>left_area = \<lparr>x = x area, y = y area, width = width area / 2,
                        height = height area\<rparr>,
        right_area = \<lparr>x = x area + width area / 2, y = y area, width = width area / 2,
                         height = height area\<rparr>,
        container_used = \<lparr>split = Vertical, constraint = Some 0\<rparr>\<rparr>
   \<and> left_area (splitArea area (Some \<lparr>split = s, constraint = Some 0\<rparr>))
     = left_area (splitArea area (Some \<lparr>split = s, constraint = None\<rparr>))
   \<and> right_area (splitArea area (Some \<lparr>split = s, constraint = Some 0\<rparr>))
     = right_area (splitArea area (Some \<lparr>split = s, constraint = None\<rparr>))
   \<and> fitAreas \<lparr>split = Horizontal, constraint = Some 0\<rparr> area
     = (\<lparr>x = x area, y = y area, width = width area, height = height area / 2\<rparr>,
        \<lparr>x = x area, y = y area + height area / 2, width = width area,
           height = height area / 2\<rparr>)
   \<and> fitAreas \<lparr>split = Vertical, constraint = Some 0\<rparr> area
     = (\<lparr>x = x area, y = y area, width = width area / 2, height = height area\<rparr>,
        \<lparr>x = x area + width area / 2, y = y area, width = width area / 2,
           height = height area\<rparr>)
   \<and> fitTree (Node (Container \<lparr>split = s, constraint = Some 0\<rparr>) l r) area windows h
     = fitTree (Node (Container \<lparr>split = s, constraint = None\<rparr>) l r) area windows h
   \<and> fitTree (Node (Container \<lparr>split = Horizontal, constraint = Some 0\<rparr>)
        (Some (leaf (Tile a))) (Some (leaf (Tile b)))) area windows h
     = (case fit (findWindow windows (tile_id a) h)
               \<lparr>x = x area, y = y area, width = width area, height = height area / 2\<rparr> h of
          Inl e \<Rightarrow> Inl e
        | Inr h1 \<Rightarrow>
            fit (findWindow windows (tile_id b) h1)
              \<lparr>x = x area, y = y area + height area / 2, width = width area,
                 height = height area / 2\<rparr> h1)
   \<and> fitTree (Node (Container \<lparr>split = Vertical, constraint = Some 0\<rparr>)
        (Some (leaf (Tile a))) (Some (leaf (Tile b)))) area windows h
     = (case fit (findWindow windows (tile_id a) h)
               \<lparr>x = x area, y = y area, width = width area / 2, height = height area\<rparr> h of
          Inl e \<Rightarrow> Inl e
        | Inr h1 \<Rightarrow>
            fit (findWindow windows (tile_id b) h1)
              \<lparr>x = x area + width area / 2, y = y area, width = width area / 2,
                 height = height area\<rparr> h1)
   \<and> left_area (splitArea \<lparr>x = 0, y = 0, width = 1000, height = 600\<rparr>
        (Some \<lparr>split = Vertical, constraint = Some 0\<rparr>))
     = \<lparr>x = 0, y = 0, width = 500, height = 600\<rparr>
   \<and> right_area (splitArea \<lparr>x = 0, y = 0, width = 1000, height = 600\<rparr>
        (Some \<lparr>split = Vertical, constraint = Some 0\<rparr>))
     = \<lparr>x = 500, y = 0, width = 500, height = 600\<rparr>
   \<and> (case fitTree (Node (Container \<lparr>split = Vertical, constraint = Some 0\<rparr>)
            (Some (leaf (Tile (newTile 1)))) (Some (leaf (Tile (newTile 2)))))
          \<lparr>x = 0, y = 0, width = 1000, height = 600\<rparr> [0, 1] portrait of
         Inl e \<Rightarrow> False
       | Inr h1 \<Rightarrow>
           get_frame_rect (objects h1 0) = \<lparr>x = 0, y = 0, width = 500, height = 600\<rparr>
           \<and> get_frame_rect (objects h1 1) = \<lparr>x = 500, y = 0, width = 500, height = 600\<rparr>)"
proof -
  have scen: "left_area (splitArea \<lparr>x = 0, y = 0, width = 1000, height = 600\<rparr>
        (Some \<lparr>split = Vertical, constraint = Some 0\<rparr>))
     = \<lparr>x = 0, y = 0, width = 500, height = 600\<rparr>
   \<and> right_area (splitArea \<lparr>x = 0, y = 0, width = 1000, height = 600\<rparr>
        (Some \<lparr>split = Vertical, constraint = Some 0\<rparr>))
     = \<lparr>x = 500, y = 0, width = 500, height = 600\<rparr>"
    by (simp add: splitArea_zero_Vertical)
  show ?thesis
    using splitArea_zero_Horizontal [of area] splitArea_zero_Vertical [of area]
      splitArea_zero_absent [of area s]
      fitAreas_zero_Horizontal [of area] fitAreas_zero_Vertical [of area]
      fitTree_zero_absent [of s l r area windows h]
      fitTree_zero_Horizontal [of a b area windows h]
      fitTree_zero_Vertical [of a b area windows h]
      scen fitTree_zero_portrait
    by presburger
qed

section \<open>Work-area calculator\<close>

text \<open>
  C7. The work-area calculator clamps each inset side to \<open>[0, floor(dimension / 2)]\<close> and
  moves each edge of the raw work area inward by the clamped inset minus the spacing:
  the west and north edges move by \<open>l - sp\<close> and \<open>t - sp\<close>, the east and south edges by
  \<open>r - sp\<close> and \<open>b - sp\<close>, where each clamped side lies in its range when the range is not
  empty and equals the configured side when that lies in the range. For the raw work
  area \<open>{0, 0, 1920, 1080}\<close>, inset 20 on every side and spacing 10 the result is
  \<open>{10, 10, 1900, 1060}\<close>.
\<close>

theorem workArea_insets:
  "(let wa = workArea ins raw sp;
        fh = of_int \<lfloor>height raw / 2\<rfloor>;
        fw = of_int \<lfloor>width raw / 2\<rfloor>;
        t = clamp (top_inset ins) 0 fh;
        b = clamp (bottom_inset ins) 0 fh;
        l = clamp (left_inset ins) 0 fw;
        r = clamp (right_inset ins) 0 fw
    in x wa = x raw + (l - sp)
     \<and> y wa = y raw + (t - sp)
     \<and> x wa + width wa = x raw + width raw - (r - sp)
     \<and> y wa + height wa = y raw + height raw - (b - sp)
     \<and> (0 \<le> fh \<longrightarrow> 0 \<le> t \<and> t \<le> fh \<and> 0 \<le> b \<and> b \<le> fh)
     \<and> (0 \<le> fw \<longrightarrow> 0 \<le> l \<and> l \<le> fw \<and> 0 \<le> r \<and> r \<le> fw)
     \<and> (0 \<le> top_inset ins \<and> top_inset ins \<le> fh \<longrightarrow> t = top_inset ins)
     \<and> (0 \<le> bottom_inset ins \<and> bottom_inset ins \<le> fh \<longrightarrow> b = bottom_inset ins)
     \<and> (0 \<le> left_inset ins \<and> left_inset ins \<le> fw \<longrightarrow> l = left_inset ins)
     \<and> (0 \<le> right_inset ins \<and> right_inset ins \<le> fw \<longrightarrow> r = right_inset ins))
   \<and> workArea \<lparr>top_inset = 20, right_inset = 20, bottom_inset = 20, left_inset = 20\<rparr>
        \<lparr>x = 0, y = 0, width = 1920, height = 1080\<rparr> 10
      = \<lparr>x = 10, y = 10, width = 1900, height = 1060\<rparr>"
  by (simp add: workArea_def clamp_def Let_def)

theorem workArea_insets_witness:
  "(0::rat) \<le> of_int \<lfloor>(1080::rat) / 2\<rfloor> \<and> (0::rat) \<le> of_int \<lfloor>(1920::rat) / 2\<rfloor>
   \<and> (0::rat) \<le> 20 \<and> (20::rat) \<le> of_int \<lfloor>(1080::rat) / 2\<rfloor>
   \<and> (20::rat) \<le> of_int \<lfloor>(1920::rat) / 2\<rfloor>
   \<and> clamp 20 0 (of_int \<lfloor>(1080::rat) / 2\<rfloor>) = 20
   \<and> clamp 20 0 (of_int \<lfloor>(1920::rat) / 2\<rfloor>) = 20
   \<and> x (workArea \<lparr>top_inset = 20, right_inset = 20, bottom_inset = 20, left_inset = 20\<rparr>
        \<lparr>x = 0, y = 0, width = 1920, height = 1080\<rparr> 10) = 10
   \<and> y (workArea \<lparr>top_inset = 20, right_inset = 20, bottom_inset = 20, left_inset = 20\<rparr>
        \<lparr>x = 0, y = 0, width = 1920, height = 1080\<rparr> 10) = 10"
  using workArea_insets [of
      "\<lparr>top_inset = 20, right_inset = 20, bottom_inset = 20, left_inset = 20\<rparr>"
      "\<lparr>x = 0, y = 0, width = 1920, height = 1080\<rparr>" 10]
  by (simp add: Let_def)

section \<open>Insertion\<close>

lemma pushTree_outside:
  "\<not> pointInRectangle p area \<Longrightarrow> pushTree t p newT area = Inr t"
  by (cases t) simp

text \<open>
  C8. For every tree and every point lying outside the work-area rectangle, pushTree
  returns normally and leaves the tree as it was: same shape, same payloads, no tile
  inserted.
\<close>

theorem pushTree_outside_noop:
  "\<not> pointInRectangle p area \<Longrightarrow> pushTree tree p newT area = Inr tree"
  by (rule pushTree_outside)

theorem pushTree_outside_noop_witness:
  "\<not> pointInRectangle \<lparr>px = 1400, py = 300\<rparr> \<lparr>x = 0, y = 0, width = 1000, height = 600\<rparr>
   \<and> pushTree (Node (Container (newContainer Vertical))
                 (Some (leaf (Tile (newTile 1)))) (Some (leaf (Tile (newTile 2)))))
        \<lparr>px = 1400, py = 300\<rparr> (newTile 3) \<lparr>x = 0, y = 0, width = 1000, height = 600\<rparr>
      = Inr (Node (Container (newContainer Vertical))
                 (Some (leaf (Tile (newTile 1)))) (Some (leaf (Tile (newTile 2)))))"
proof -
  have out: "\<not> pointInRectangle \<lparr>px = 1400, py = 300\<rparr>
                 \<lparr>x = 0, y = 0, width = 1000, height = 600\<rparr>"
    by (simp add: pointInRectangle_def)
  show ?thesis using out pushTree_outside_noop [OF out] by simp
qed

section \<open>Removal\<close>

lemma removeId_absent: "i \<notin> set (tileIds t) \<Longrightarrow> removeId t i = t"
proof (induction t i rule: removeId.induct)
  case (1 d l r i)
  show ?case
  proof (cases d)
    case (Tile u)
    with "1.prems" show ?thesis by (simp add: tileIds_def)
  next
    case (Container c)
    show ?thesis
    proof (cases l)
      case None
      with Container show ?thesis by simp
    next
      case (Some lt)
      note l = this
      show ?thesis
      proof (cases r)
        case None
        with Container l show ?thesis by simp
      next
        case (Some rt)
        have il: "i \<notin> set (tileIds lt)" and ir: "i \<notin> set (tileIds rt)"
          using "1.prems" Container l Some by (simp_all add: tileIds_def)
        have l': "(case data lt of Container c1 \<Rightarrow> removeId lt i | Tile t1 \<Rightarrow> lt) = lt"
          using "1.IH"(1) [OF Container l Some] il by (simp split: payload.splits)
        have r': "(case data rt of Container c2 \<Rightarrow> removeId rt i | Tile t2 \<Rightarrow> rt) = rt"
          using "1.IH"(2) [OF Container l Some] ir by (simp split: payload.splits)
        have nl: "\<not> isTileWithId lt i" using il
          by (cases lt) (auto simp: isTileWithId_def tileIds_def split: payload.splits)
        have nr: "\<not> isTileWithId rt i" using ir
          by (cases rt) (auto simp: isTileWithId_def tileIds_def split: payload.splits)
        show ?thesis using Container l Some l' r' nl nr by simp
      qed
    qed
  qed
qed


lemma tileIds_Node:
  "tileIds (Node d l r) =
     (case d of Tile t \<Rightarrow> [tile_id t] | Container c \<Rightarrow> [])
     @ (case l of None \<Rightarrow> [] | Some lt \<Rightarrow> tileIds lt)
     @ (case r of None \<Rightarrow> [] | Some rt \<Rightarrow> tileIds rt)"
  by (simp add: tileIds_def split: payload.splits option.splits)

lemma populated_tile_notin:
  "populated t \<Longrightarrow> i \<notin> set (tileIds t) \<Longrightarrow> \<not> isTileWithId t i"
  by (cases t) (auto simp: isTileWithId_def tileIds_Node split: payload.splits)

lemma populated_isTileWithId:
  "populated t \<Longrightarrow> isTileWithId t i \<Longrightarrow> tileIds t = [i]"
  by (cases t) (auto simp: isTileWithId_def tileIds_Node split: payload.splits)

lemma removeId_populated:
  "populated t \<Longrightarrow> distinct (tileIds t) \<Longrightarrow> data t = Container c0 \<Longrightarrow>
   populated (removeId t i) \<and> tileIds (removeId t i) = remove1 i (tileIds t)"
proof (induction t i arbitrary: c0 rule: removeId.induct)
  case (1 d l r i)
  from "1.prems" obtain c lt rt where d: "d = Container c" and l: "l = Some lt" and r: "r = Some rt"
    and pl: "populated lt" and pr: "populated rt"
    by (auto split: payload.splits option.splits)
  define lt' where "lt' = (case data lt of Container c1 \<Rightarrow> removeId lt i | Tile t1 \<Rightarrow> lt)"
  define rt' where "rt' = (case data rt of Container c2 \<Rightarrow> removeId rt i | Tile t2 \<Rightarrow> rt)"
  have dist: "distinct (tileIds lt @ tileIds rt)"
    using "1.prems"(2) d l r by (simp add: tileIds_Node)
  then have dl: "distinct (tileIds lt)" and dr: "distinct (tileIds rt)"
    and disj: "set (tileIds lt) \<inter> set (tileIds rt) = {}" by auto
  have L: "populated lt' \<and> (isTileWithId lt i \<or> tileIds lt' = remove1 i (tileIds lt))
           \<and> (isTileWithId lt i \<longrightarrow> lt' = lt)"
  proof (cases "data lt")
    case (Tile u)
    then show ?thesis using pl
      by (cases lt) (auto simp: lt'_def isTileWithId_def tileIds_Node)
  next
    case (Container c1)
    then show ?thesis using "1.IH"(1) [OF d l r Container pl dl Container] pl
      by (simp add: lt'_def isTileWithId_def)
  qed
  have R: "populated rt' \<and> (isTileWithId rt i \<or> tileIds rt' = remove1 i (tileIds rt))
           \<and> (isTileWithId rt i \<longrightarrow> rt' = rt)"
  proof (cases "data rt")
    case (Tile u)
    then show ?thesis using pr
      by (cases rt) (auto simp: rt'_def isTileWithId_def tileIds_Node)
  next
    case (Container c2)
    then show ?thesis using "1.IH"(2) [OF d l r refl Container pr dr Container] pr
      by (simp add: rt'_def isTileWithId_def)
  qed
  have res: "removeId (Node d l r) i =
        (if isTileWithId lt' i then rt' else if isTileWithId rt' i then lt'
         else Node d (Some lt') (Some rt'))"
    using d l r by (simp add: lt'_def rt'_def Let_def)
  have ids: "tileIds (Node d l r) = tileIds lt @ tileIds rt"
    using d l r by (simp add: tileIds_Node)
  show ?case
  proof (cases "isTileWithId lt i")
    case True
    then have "lt' = lt" and "tileIds lt = [i]" using L pl populated_isTileWithId by auto
    moreover have "i \<notin> set (tileIds rt)" using disj \<open>tileIds lt = [i]\<close> by auto
    moreover then have "tileIds rt' = tileIds rt"
      using R populated_tile_notin [OF pr] by (auto simp: remove1_idem)
    ultimately show ?thesis using res True R ids by simp
  next
    case False
    then have tl: "tileIds lt' = remove1 i (tileIds lt)" using L by simp
    have "i \<notin> set (tileIds lt')" using tl dl by simp
    then have nl': "\<not> isTileWithId lt' i"
      using populated_isTileWithId [of lt' i] L by auto
    show ?thesis
    proof (cases "isTileWithId rt i")
      case True
      then have "rt' = rt" and "tileIds rt = [i]" using R pr populated_isTileWithId by auto
      moreover have "i \<notin> set (tileIds lt)" using disj \<open>tileIds rt = [i]\<close> by auto
      ultimately show ?thesis using res True nl' L tl ids by (simp add: remove1_idem remove1_append)
    next
      case False
      then have tr: "tileIds rt' = remove1 i (tileIds rt)" using R by simp
      have "i \<notin> set (tileIds rt')" using tr dr by simp
      then have nr': "\<not> isTileWithId rt' i"
        using populated_isTileWithId [of rt' i] R by auto
      have "tileIds (Node d (Some lt') (Some rt')) = remove1 i (tileIds lt @ tileIds rt)"
      proof (cases "i \<in> set (tileIds lt)")
        case True
        then have "i \<notin> set (tileIds rt)" using disj by auto
        then show ?thesis using d tl tr True
          by (simp add: tileIds_Node remove1_append remove1_idem)
      next
        case False
        then show ?thesis using d tl tr
          by (simp add: tileIds_Node remove1_append remove1_idem)
      qed
      then show ?thesis using res nl' nr' L R ids d by simp
    qed
  qed
qed


lemma populated_tileIds_nonempty: "populated t \<Longrightarrow> tileIds t \<noteq> []"
  by (induction t rule: populated.induct)
     (auto simp: tileIds_Node split: payload.splits option.splits)

lemma populated_container_two:
  "populated t \<Longrightarrow> data t = Container c \<Longrightarrow> 2 \<le> length (tileIds t)"
proof (cases t)
  case (Node d l r)
  assume p: "populated t" and c: "data t = Container c"
  from p c Node obtain lt rt where "l = Some lt" "r = Some rt" "populated lt" "populated rt"
    by (auto split: option.splits)
  then show ?thesis using Node c populated_tileIds_nonempty [of lt] populated_tileIds_nonempty [of rt]
    by (cases "tileIds lt"; cases "tileIds rt") (simp_all add: tileIds_Node)
qed

text \<open>
  C3. For every valid tree containing a tile with identifier \<open>i\<close>, \<open>removeId\<close> returns a
  tree without a tile \<open>i\<close> and with exactly one tile less; when \<open>i\<close> was the only tile, the
  result is an empty container node without children. For every tree that does not
  contain \<open>i\<close>, \<open>removeId\<close> returns its input.
\<close>

theorem removeId_invariant:
  "(valid t \<and> i \<in> set (tileIds t) \<longrightarrow>
      i \<notin> set (tileIds (removeId t i))
      \<and> countTiles (removeId t i) + 1 = countTiles t
      \<and> (tileIds t = [i] \<longrightarrow> removeId t i = leaf (Container (newContainer Horizontal))))
   \<and> (i \<notin> set (tileIds t) \<longrightarrow> removeId t i = t)"
proof (intro conjI impI)
  assume "i \<notin> set (tileIds t)"
  then show "removeId t i = t" by (rule removeId_absent)
next
  assume a: "valid t \<and> i \<in> set (tileIds t)"
  then have dist: "distinct (tileIds t)" and mem: "i \<in> set (tileIds t)"
    by (simp_all add: valid_def)
  have pop: "populated t"
  proof -
    have "\<not> emptyContainer t" using mem
      by (cases t) (auto simp: emptyContainer_def tileIds_Node split: payload.splits)
    then show ?thesis using a by (simp add: valid_def)
  qed
  have count: "countTiles u = length (tileIds u)" for u
    by (simp add: countTiles_def tileIds_def)
  have main: "i \<notin> set (tileIds (removeId t i))
      \<and> countTiles (removeId t i) + 1 = countTiles t
      \<and> (tileIds t = [i] \<longrightarrow> removeId t i = leaf (Container (newContainer Horizontal)))"
  proof (cases "data t")
    case (Tile u)
    then obtain "t = Node (Tile u) None None" using pop by (cases t) auto
    then show ?thesis using mem by (simp add: tileIds_Node count leaf_def)
  next
    case (Container c)
    have r: "tileIds (removeId t i) = remove1 i (tileIds t)"
      using removeId_populated [OF pop dist Container] by simp
    have "2 \<le> length (tileIds t)" using populated_container_two [OF pop Container] .
    then have "tileIds t \<noteq> [i]" by auto
    moreover have "length (remove1 i (tileIds t)) + 1 = length (tileIds t)"
      using mem length_pos_if_in_set [OF mem] by (simp add: length_remove1)
    ultimately show ?thesis using r dist by (simp add: count)
  qed
  from main show "i \<notin> set (tileIds (removeId t i))" by simp
  from main show "countTiles (removeId t i) + 1 = countTiles t" by simp
  assume "tileIds t = [i]"
  with main show "removeId t i = leaf (Container (newContainer Horizontal))" by simp
qed

theorem removeId_invariant_witness:
  "valid tree12 \<and> 1 \<in> set (tileIds tree12)
   \<and> 1 \<notin> set (tileIds (removeId tree12 1))
   \<and> countTiles (removeId tree12 1) + 1 = countTiles tree12
   \<and> valid (leaf (Tile (newTile 1))) \<and> tileIds (leaf (Tile (newTile 1))) = [1]
   \<and> removeId (leaf (Tile (newTile 1))) 1 = leaf (Container (newContainer Horizontal))
   \<and> 3 \<notin> set (tileIds tree12) \<and> removeId tree12 3 = tree12"
proof -
  have v: "valid tree12 \<and> 1 \<in> set (tileIds tree12)"
    by (simp add: valid_def tree12_def leaf_def newTile_def tileIds_def emptyContainer_def)
  have s: "valid (leaf (Tile (newTile 1))) \<and> 1 \<in> set (tileIds (leaf (Tile (newTile 1))))"
    by (simp add: valid_def leaf_def newTile_def tileIds_def)
  have sole: "tileIds (leaf (Tile (newTile 1))) = [1]"
    by (simp add: leaf_def newTile_def tileIds_def)
  have n: "3 \<notin> set (tileIds tree12)"
    by (simp add: tree12_def leaf_def newTile_def tileIds_def)
  show ?thesis
    using v s sole n removeId_invariant [of tree12 1]
      removeId_invariant [of "leaf (Tile (newTile 1))" 1] removeId_invariant [of tree12 3]
    by blast
qed

section \<open>Fit walk\<close>

lemma fit_get_id:
  "fit w r h = Inr h' \<Longrightarrow> get_id (objects h' a) = get_id (objects h a)"
  by (cases w)
     (auto simp: moveResize_def move_resize_frame_def move_frame_def unmaximize_def Let_def
           split: if_splits)

lemma findWindow_get_id:
  "(\<And>a. get_id (objects h' a) = get_id (objects h a)) \<Longrightarrow>
   findWindow windows i h' = findWindow windows i h"
  by (simp add: findWindow_def)

lemma fitTree_child:
  "(case data n of
      Tile t1 \<Rightarrow> fit (findWindow windows (tile_id t1) h) area h
    | Container c1 \<Rightarrow> fitTree n area windows h) = fitTree n area windows h"
  by (cases n) (simp split: payload.splits)

lemma fitTree_split:
  "fitTree (Node (Container c) (Some lt) (Some rt)) area windows h =
     (case fitTree lt (fst (fitAreas c area)) windows h of
        Inl e \<Rightarrow> Inl e
      | Inr h1 \<Rightarrow> fitTree rt (snd (fitAreas c area)) windows h1)"
  by (simp add: fitTree_child split_beta cong: sum.case_cong)

lemma fitTree_get_id:
  "fitTree t area windows h = Inr h' \<Longrightarrow> get_id (objects h' a) = get_id (objects h a)"
proof (induction t arbitrary: area h h' rule: measure_induct_rule [where f = size])
  case (less t)
  show ?case
  proof (cases t)
    case (Node d l r)
    show ?thesis
    proof (cases d)
      case (Tile u)
      with less.prems Node show ?thesis by (auto dest: fit_get_id)
    next
      case (Container c)
      show ?thesis
      proof (cases l)
        case None
        with less.prems Node Container show ?thesis by (cases r) auto
      next
        case (Some lt)
        note l = this
        show ?thesis
        proof (cases r)
          case None
          with less.prems Node Container l show ?thesis by auto
        next
          case (Some rt)
          from less.prems obtain h1 where
            1: "fitTree lt (fst (fitAreas c area)) windows h = Inr h1" and
            2: "fitTree rt (snd (fitAreas c area)) windows h1 = Inr h'"
            unfolding Node Container l Some fitTree_split by (auto split: sum.splits)
          have "size lt < size t" "size rt < size t" using Node l Some by simp_all
          then show ?thesis using less.IH [OF _ 1] less.IH [OF _ 2] by simp
        qed
      qed
    qed
  qed
qed

lemma fit_Some_no_error: "fit (Some w) r h \<noteq> Inl e"
  by (simp add: Let_def)

lemma findWindow_known:
  "\<exists>w\<in>set windows. get_id (objects h w) = i \<Longrightarrow> findWindow windows i h \<noteq> None"
  by (auto simp: findWindow_def find_None_iff)

lemma fitTree_no_TypeError:
  "\<forall>i\<in>set (tileIds t). \<exists>w\<in>set windows. get_id (objects h w) = i \<Longrightarrow>
   fitTree t area windows h \<noteq> Inl TypeError"
proof (induction t arbitrary: area h rule: measure_induct_rule [where f = size])
  case (less t)
  show ?case
  proof (cases t)
    case (Node d l r)
    show ?thesis
    proof (cases d)
      case (Tile u)
      have "findWindow windows (tile_id u) h \<noteq> None"
        using less.prems Node Tile by (intro findWindow_known) (simp add: tileIds_Node)
      then show ?thesis using Node Tile fit_Some_no_error by (auto simp del: fit.simps)
    next
      case (Container c)
      show ?thesis
      proof (cases l)
        case None
        with Node Container show ?thesis by (cases r) auto
      next
        case (Some lt)
        note l = this
        show ?thesis
        proof (cases r)
          case None
          with Node Container l show ?thesis by auto
        next
          case (Some rt)
          have sz: "size lt < size t" "size rt < size t" using Node l Some by simp_all
          have kl: "\<forall>i\<in>set (tileIds lt). \<exists>w\<in>set windows. get_id (objects h w) = i"
            and kr: "\<forall>i\<in>set (tileIds rt). \<exists>w\<in>set windows. get_id (objects h w) = i"
            using less.prems Node Container l Some by (simp_all add: tileIds_Node)
          have L: "fitTree lt (fst (fitAreas c area)) windows h \<noteq> Inl TypeError"
            using less.IH [OF sz(1) kl] .
          have R: "fitTree rt (snd (fitAreas c area)) windows h1 \<noteq> Inl TypeError"
            if "fitTree lt (fst (fitAreas c area)) windows h = Inr h1" for h1
            using less.IH [OF sz(2), of h1] kr fitTree_get_id [OF that] by simp
          show ?thesis unfolding Node Container l Some fitTree_split
            using L R by (auto split: sum.splits)
        qed
      qed
    qed
  qed
qed


text \<open>
  C9. If every tile identifier appearing in the tree is the identifier of some window in
  the window list passed to the fit walk, no window lookup of the walk fails: the walk
  does not end in the TypeError of a call on an undefined window. Without the
  precondition the lookup can fail: for a tile 8 and a window list holding only window
  7, the walk ends in that TypeError.
\<close>

theorem fitTree_lookup:
  "((\<forall>i\<in>set (tileIds t). \<exists>w\<in>set windows. get_id (objects h w) = i) \<longrightarrow>
      fitTree t area windows h \<noteq> Inl TypeError)
   \<and> \<not> (\<forall>i\<in>set (tileIds (leaf (Tile (newTile 8)))). \<exists>w\<in>set [0]. get_id (objects desk w) = i)
   \<and> fitTree (leaf (Tile (newTile 8))) wideArea [0] desk = Inl TypeError"
proof (intro conjI impI)
  assume "\<forall>i\<in>set (tileIds t). \<exists>w\<in>set windows. get_id (objects h w) = i"
  then show "fitTree t area windows h \<noteq> Inl TypeError" by (rule fitTree_no_TypeError)
next
  show "\<not> (\<forall>i\<in>set (tileIds (leaf (Tile (newTile 8)))). \<exists>w\<in>set [0]. get_id (objects desk w) = i)"
    by (simp add: tileIds_def leaf_def newTile_def desk_def window7_def)
next
  show "fitTree (leaf (Tile (newTile 8))) wideArea [0] desk = Inl TypeError"
    by (simp add: leaf_def newTile_def findWindow_def desk_def window7_def)
qed

theorem fitTree_lookup_witness:
  "tileIds (leaf (Tile (newTile 7))) = [7] \<and> get_id (objects desk 0) = 7
   \<and> fitTree (leaf (Tile (newTile 7))) wideArea [0] desk \<noteq> Inl TypeError"
proof -
  have ids: "tileIds (leaf (Tile (newTile 7))) = [7]"
    by (simp add: tileIds_def leaf_def newTile_def)
  have w: "get_id (objects desk 0) = 7" by (simp add: desk_def window7_def)
  have "\<forall>i\<in>set (tileIds (leaf (Tile (newTile 7)))). \<exists>w\<in>set [0]. get_id (objects desk w) = i"
    using ids w by simp
  then show ?thesis
    using ids w fitTree_lookup [of "leaf (Tile (newTile 7))" "[0]" desk wideArea] by blast
qed

section \<open>Tree builder: split orientation\<close>

lemma initLoop_tile_splits:
  "splits (initLoop h (leaf (Tile t)) ws index area)
     = map (\<lambda>k. initSplit k area) [index..<index + length ws]"
proof (induction ws arbitrary: t index)
  case Nil
  then show ?case by (simp add: leaf_def)
next
  case (Cons w ws)
  have "splits (initLoop h (leaf (Tile t)) (w # ws) index area)
          = initSplit index area
            # splits (initLoop h (leaf (Tile (newTile (get_id (objects h w))))) ws (index + 1) area)"
    by (simp add: leaf_def newContainer_def)
  also have "\<dots> = initSplit index area # map (\<lambda>k. initSplit k area) [index + 1..<index + 1 + length ws]"
    by (simp only: Cons.IH)
  also have "\<dots> = map (\<lambda>k. initSplit k area) [index..<index + length (w # ws)]"
  proof -
    have "[index..<index + length (w # ws)] = index # [index + 1..<index + 1 + length ws]"
      using upt_conv_Cons [of index "index + length (w # ws)"] by (simp del: upt_Suc)
    then show ?thesis by (simp only: list.map)
  qed
  finally show ?case .
qed

lemma initLoop_fresh_splits:
  "splits (initLoop h (leaf (Container (newContainer Horizontal))) (w # ws) 0 area)
     = map (\<lambda>k. initSplit k area) [1..<1 + length ws]"
  using initLoop_tile_splits [of h "newTile (get_id (objects h w))" ws 1 area]
  by (simp add: leaf_def)

text \<open>
  Where the builder agrees with the alternation rule: on an even index the new container
  is Horizontal if the work area is wider than tall and Vertical otherwise, and on an odd
  index over a work area wider than tall it is Vertical.
\<close>

lemma initLoop_orientation_agrees:
  "(even index \<longrightarrow>
      data (initLoop h (Node (Tile t) l r) (w # ws) index area)
        = Container \<lparr>split = (if width area > height area then Horizontal else Vertical),
                     constraint = None\<rparr>)
   \<and> (odd index \<and> width area > height area \<longrightarrow>
      data (initLoop h (Node (Tile t) l r) (w # ws) index area)
        = Container \<lparr>split = Vertical, constraint = None\<rparr>)"
  by (simp add: initSplit_def newContainer_def even_iff_mod_2_eq_zero)

text \<open>
  C5 on a portrait monitor. The work area of \<open>portrait\<close> is \<open>{0, 0, 1080, 1920}\<close>, taller
  than wide, and the slot has the three windows 1, 2 and 3. The builder splits at the
  insertion indices 1 and 2. By the alternation rule the container of the odd index 1 is
  Horizontal and that of the even index 2 is Vertical; the area-split helper, which
  \<open>pushTree\<close> uses for the same step, also splits this work area Horizontal. The builder
  makes both containers Vertical: on a work area that is not wider than tall its test
  never gives Horizontal, whatever the index.
\<close>

theorem initTree_portrait_splits:
  "hostWorkArea portrait 0 = \<lparr>x = 0, y = 0, width = 1080, height = 1920\<rparr>
   \<and> \<not> width (hostWorkArea portrait 0) > height (hostWorkArea portrait 0)
   \<and> filter (eligible portrait 0) (list_windows portrait ! 0) = [0, 1, 2]
   \<and> (case initTree portrait of
         Inl e \<Rightarrow> False
       | Inr (f, h) \<Rightarrow>
           tileIds (slotTree f 0 0) = [1, 2, 3]
           \<and> splits (slotTree f 0 0) = [Vertical, Vertical]
           \<and> data (slotTree f 0 0) = Container \<lparr>split = Vertical, constraint = None\<rparr>)
   \<and> initSplit 1 (hostWorkArea portrait 0) = Vertical
   \<and> initSplit 2 (hostWorkArea portrait 0) = Vertical
   \<and> split (container_used (splitArea (hostWorkArea portrait 0) None)) = Horizontal"
proof -
  have wa: "hostWorkArea portrait 0 = \<lparr>x = 0, y = 0, width = 1080, height = 1920\<rparr>"
    by (simp add: hostWorkArea_def workArea_def clamp_def getInset_def getSpacing_def
        portrait_def)
  have el: "filter (eligible portrait 0) (list_windows portrait ! 0) = [0, 1, 2]"
    by (simp add: eligible_def TitleBlacklist_def endsWith_def portrait_def windowNo_def)
  have tree: "(case initTree portrait of
         Inl e \<Rightarrow> False
       | Inr (f, h) \<Rightarrow>
           tileIds (slotTree f 0 0) = [1, 2, 3]
           \<and> splits (slotTree f 0 0) = [Vertical, Vertical]
           \<and> data (slotTree f 0 0) = Container \<lparr>split = Vertical, constraint = None\<rparr>)"
    by (simp add: initTree_def portrait_def windowNo_def eligible_def TitleBlacklist_def
        endsWith_def emptyForest_def upt_rec hostWorkArea_def workArea_def clamp_def
        getInset_def getSpacing_def autotile_def slotTree_def leaf_def newTile_def
        newContainer_def initSplit_def findWindow_def tileIds_def fitAreas_def dimension_def
        set_dimension_def position_def set_position_def moveResize_def unmaximize_def
        move_frame_def move_resize_frame_def)
  have sp: "initSplit 1 (hostWorkArea portrait 0) = Vertical"
    "initSplit 2 (hostWorkArea portrait 0) = Vertical"
    "split (container_used (splitArea (hostWorkArea portrait 0) None)) = Horizontal"
    by (simp_all add: wa initSplit_def splitArea_def newContainer_def Let_def)
  show ?thesis using wa el tree sp by simp
qed

section \<open>Insertion on a split boundary\<close>

text \<open>
  For a point in the work area, insertion into a populated tree succeeds, keeps every
  tile, adds the new tile and no other, and the number of tiles grows.
\<close>

lemma splitArea_covers:
  "pointInRectangle p area \<Longrightarrow>
   pointInRectangle p (left_area (splitArea area (Some c)))
   \<or> pointInRectangle p (right_area (splitArea area (Some c)))"
  by (cases "split c"; cases "constraint c"; cases area)
     (auto simp: splitArea_def pointInRectangle_def dimension_def set_dimension_def
        position_def set_position_def Let_def)

lemma pushTree_populated:
  "populated t \<Longrightarrow> pointInRectangle p area \<Longrightarrow>
   \<exists>t'. pushTree t p newT area = Inr t' \<and> populated t'
        \<and> set (tiles t') = insert newT (set (tiles t))
        \<and> countTiles t < countTiles t'"
proof (induction t arbitrary: area rule: measure_induct_rule [where f = size])
  case (less t)
  show ?case
  proof (cases t)
    case (Node d l r)
    show ?thesis
    proof (cases d)
      case (Tile u)
      then have "l = None" "r = None" using less.prems(1) Node by auto
      then show ?thesis using Node Tile less.prems(2)
        by (auto simp: Let_def leaf_def countTiles_def)
    next
      case (Container c)
      then obtain lt rt where l: "l = Some lt" and r: "r = Some rt"
        and pl: "populated lt" and pr: "populated rt"
        using less.prems(1) Node by (auto split: option.splits)
      let ?A = "left_area (splitArea area (Some c))"
      let ?B = "right_area (splitArea area (Some c))"
      have sz: "size lt < size t" "size rt < size t" using Node l r by simp_all
      have unf: "pushTree t p newT area =
          (case pushTree lt p newT ?A of
             Inl e \<Rightarrow> Inl e
           | Inr lt' \<Rightarrow>
              (case pushTree rt p newT ?B of
                 Inl e \<Rightarrow> Inl e
               | Inr rt' \<Rightarrow> Inr (Node d (Some lt') (Some rt'))))"
        using Node Container l r less.prems(2) by (simp add: Let_def cong: sum.case_cong)
      have L: "\<exists>lt'. pushTree lt p newT ?A = Inr lt' \<and> populated lt'
            \<and> (if pointInRectangle p ?A
                then set (tiles lt') = insert newT (set (tiles lt)) \<and> countTiles lt < countTiles lt'
                else lt' = lt)"
        using less.IH [OF sz(1) pl, of ?A] pushTree_outside [of p ?A lt newT] pl by auto
      have R: "\<exists>rt'. pushTree rt p newT ?B = Inr rt' \<and> populated rt'
            \<and> (if pointInRectangle p ?B
                then set (tiles rt') = insert newT (set (tiles rt)) \<and> countTiles rt < countTiles rt'
                else rt' = rt)"
        using less.IH [OF sz(2) pr, of ?B] pushTree_outside [of p ?B rt newT] pr by auto
      from L obtain lt' where lt': "pushTree lt p newT ?A = Inr lt'" "populated lt'"
        "if pointInRectangle p ?A
         then set (tiles lt') = insert newT (set (tiles lt)) \<and> countTiles lt < countTiles lt'
         else lt' = lt" by blast
      from R obtain rt' where rt': "pushTree rt p newT ?B = Inr rt'" "populated rt'"
        "if pointInRectangle p ?B
         then set (tiles rt') = insert newT (set (tiles rt)) \<and> countTiles rt < countTiles rt'
         else rt' = rt" by blast
      have cov: "pointInRectangle p ?A \<or> pointInRectangle p ?B"
        using splitArea_covers [OF less.prems(2)] .
      have res: "pushTree t p newT area = Inr (Node d (Some lt') (Some rt'))"
        using unf lt'(1) rt'(1) by simp
      have "populated (Node d (Some lt') (Some rt'))" using Container lt'(2) rt'(2) by simp
      moreover have "set (tiles (Node d (Some lt') (Some rt'))) = insert newT (set (tiles t))
          \<and> countTiles t < countTiles (Node d (Some lt') (Some rt'))"
        using cov lt'(3) rt'(3) Node Container l r
        by (auto simp: countTiles_def split: if_splits)
      ultimately show ?thesis using res by blast
    qed
  qed
qed

text \<open>
  C2 at a point on an internal split boundary. The tree is valid, the point
  \<open>(500, 300)\<close> lies in the work area \<open>{0, 0, 1000, 600}\<close> and on the boundary between the
  two children of the root. \<open>pushTree\<close> descends into both children and splits both
  tiles: the tree has four tiles afterwards, two more than before, and the new tile 3
  occurs twice.
\<close>

theorem pushTree_boundary_inserts_twice:
  "valid tree12 \<and> pointInRectangle \<lparr>px = 500, py = 300\<rparr> wideArea
   \<and> countTiles tree12 = 2
   \<and> (case pushTree tree12 \<lparr>px = 500, py = 300\<rparr> (newTile 3) wideArea of
         Inl e \<Rightarrow> False
       | Inr t' \<Rightarrow> countTiles t' = 4 \<and> tileIds t' = [3, 1, 3, 2])"
  by (simp add: valid_def tree12_def emptyContainer_def tileIds_def countTiles_def leaf_def
      newTile_def newContainer_def pointInRectangle_def wideArea_def splitArea_def
      dimension_def set_dimension_def position_def set_position_def)

section \<open>Fit, repeated\<close>

text \<open>
  A fit walk changes the frames of the windows its tiles name and nothing else. On a
  tree with distinct tile identifiers a second walk succeeds and leaves every frame as
  the first walk left it.
\<close>

lemma fit_other:
  "fit (Some a0) r h = Inr h1 \<Longrightarrow> a \<noteq> a0 \<Longrightarrow> objects h1 a = objects h a"
  by (auto simp: moveResize_def move_resize_frame_def move_frame_def unmaximize_def Let_def
           split: if_splits)

lemma fit_gaps: "fit w r h = Inr h1 \<Longrightarrow> gaps_in h1 = gaps_in h"
  by (cases w)
     (auto simp: moveResize_def move_resize_frame_def move_frame_def unmaximize_def Let_def
           split: if_splits)

lemma fit_again:
  assumes "fit (Some a0) r h = Inr h1" and "gaps_in k = gaps_in h"
  shows "\<exists>k1. fit (Some a0) r k = Inr k1
           \<and> (\<forall>a. get_frame_rect (objects k a) = get_frame_rect (objects h1 a)
                \<longrightarrow> get_frame_rect (objects k1 a) = get_frame_rect (objects k a))"
  using assms
  by (cases r)
     (auto simp: moveResize_def move_resize_frame_def move_frame_def unmaximize_def Let_def
        getSpacing_def split: if_splits)

lemma findWindow_Some_id: "findWindow ws i h = Some a \<Longrightarrow> get_id (objects h a) = i"
  by (auto simp: findWindow_def find_Some_iff)

lemma fitTree_gaps: "fitTree t area windows h = Inr h1 \<Longrightarrow> gaps_in h1 = gaps_in h"
proof (induction t arbitrary: area h h1 rule: measure_induct_rule [where f = size])
  case (less t)
  show ?case
  proof (cases t)
    case (Node d l r)
    show ?thesis
    proof (cases d)
      case (Tile u)
      with less.prems Node show ?thesis by (auto dest: fit_gaps)
    next
      case (Container c)
      show ?thesis
      proof (cases l)
        case None
        with less.prems Node Container show ?thesis by (cases r) auto
      next
        case (Some lt)
        note l = this
        show ?thesis
        proof (cases r)
          case None
          with less.prems Node Container l show ?thesis by auto
        next
          case (Some rt)
          from less.prems obtain hl where
            1: "fitTree lt (fst (fitAreas c area)) windows h = Inr hl" and
            2: "fitTree rt (snd (fitAreas c area)) windows hl = Inr h1"
            unfolding Node Container l Some fitTree_split by (auto split: sum.splits)
          have "size lt < size t" "size rt < size t" using Node l Some by simp_all
          then show ?thesis using less.IH [OF _ 1] less.IH [OF _ 2] by simp
        qed
      qed
    qed
  qed
qed

lemma fitTree_local:
  "fitTree t area windows h = Inr h1 \<Longrightarrow>
   \<forall>i\<in>set (tileIds t). findWindow windows i h \<noteq> Some a \<Longrightarrow>
   objects h1 a = objects h a"
proof (induction t arbitrary: area h h1 rule: measure_induct_rule [where f = size])
  case (less t)
  show ?case
  proof (cases t)
    case (Node d l r)
    show ?thesis
    proof (cases d)
      case (Tile u)
      have nf: "findWindow windows (tile_id u) h \<noteq> Some a"
        using less.prems(2) Node Tile by (simp add: tileIds_Node)
      from less.prems(1) Node Tile obtain a0 where
        "findWindow windows (tile_id u) h = Some a0" "fit (Some a0) area h = Inr h1"
        by (cases "findWindow windows (tile_id u) h") auto
      then show ?thesis using nf fit_other by metis
    next
      case (Container c)
      show ?thesis
      proof (cases l)
        case None
        with less.prems Node Container show ?thesis by (cases r) auto
      next
        case (Some lt)
        note l = this
        show ?thesis
        proof (cases r)
          case None
          with less.prems Node Container l show ?thesis by auto
        next
          case (Some rt)
          from less.prems(1) obtain hl where
            1: "fitTree lt (fst (fitAreas c area)) windows h = Inr hl" and
            2: "fitTree rt (snd (fitAreas c area)) windows hl = Inr h1"
            unfolding Node Container l Some fitTree_split by (auto split: sum.splits)
          have sz: "size lt < size t" "size rt < size t" using Node l Some by simp_all
          have nl: "\<forall>i\<in>set (tileIds lt). findWindow windows i h \<noteq> Some a"
            and nr: "\<forall>i\<in>set (tileIds rt). findWindow windows i h \<noteq> Some a"
            using less.prems(2) Node Container l Some by (simp_all add: tileIds_Node)
          have same: "findWindow windows i hl = findWindow windows i h" for i
            using fitTree_get_id [OF 1] by (intro findWindow_get_id) simp
          have "objects hl a = objects h a" using less.IH [OF sz(1) 1 nl] .
          moreover have "objects h1 a = objects hl a"
            using less.IH [OF sz(2) 2] nr same by simp
          ultimately show ?thesis by simp
        qed
      qed
    qed
  qed
qed

lemma fitTree_again:
  assumes "distinct (tileIds t)" and "fitTree t area windows h = Inr h1"
    and "\<forall>a. get_id (objects k a) = get_id (objects h a)" and "gaps_in k = gaps_in h"
  shows "\<exists>k1. fitTree t area windows k = Inr k1
           \<and> (\<forall>a. get_frame_rect (objects k a) = get_frame_rect (objects h1 a)
                \<longrightarrow> get_frame_rect (objects k1 a) = get_frame_rect (objects k a))"
  using assms
proof (induction t arbitrary: area h h1 k rule: measure_induct_rule [where f = size])
  case (less t)
  have fk: "findWindow windows i k = findWindow windows i h" for i
    using less.prems(3) by (intro findWindow_get_id) simp
  show ?case
  proof (cases t)
    case (Node d l r)
    show ?thesis
    proof (cases d)
      case (Tile u)
      from less.prems(2) Node Tile obtain a0 where
        f: "findWindow windows (tile_id u) h = Some a0" and "fit (Some a0) area h = Inr h1"
        by (cases "findWindow windows (tile_id u) h") auto
      then show ?thesis using fit_again [of a0 area h h1 k] less.prems(4) Node Tile fk
        by (simp del: fit.simps)
    next
      case (Container c)
      show ?thesis
      proof (cases l)
        case None
        with less.prems Node Container show ?thesis by (cases r) auto
      next
        case (Some lt)
        note l = this
        show ?thesis
        proof (cases r)
          case None
          with less.prems Node Container l show ?thesis by auto
        next
          case (Some rt)
          let ?A = "fst (fitAreas c area)" and ?B = "snd (fitAreas c area)"
          from less.prems(2) obtain hl where
            1: "fitTree lt ?A windows h = Inr hl" and
            2: "fitTree rt ?B windows hl = Inr h1"
            unfolding Node Container l Some fitTree_split by (auto split: sum.splits)
          have sz: "size lt < size t" "size rt < size t" using Node l Some by simp_all
          have dist: "distinct (tileIds lt @ tileIds rt)"
            using less.prems(1) Node Container l Some by (simp add: tileIds_Node)
          then have dl: "distinct (tileIds lt)" and dr: "distinct (tileIds rt)"
            and disj: "set (tileIds lt) \<inter> set (tileIds rt) = {}" by auto
          from less.IH [OF sz(1) dl 1 less.prems(3) less.prems(4)] obtain kl where
            kl: "fitTree lt ?A windows k = Inr kl" and
            kl_keep: "\<And>a. get_frame_rect (objects k a) = get_frame_rect (objects hl a)
                \<Longrightarrow> get_frame_rect (objects kl a) = get_frame_rect (objects k a)"
            by blast
          have ids_kl: "\<forall>a. get_id (objects kl a) = get_id (objects hl a)"
            using fitTree_get_id [OF kl] fitTree_get_id [OF 1] less.prems(3) by simp
          have gaps_kl: "gaps_in kl = gaps_in hl"
            using fitTree_gaps [OF kl] fitTree_gaps [OF 1] less.prems(4) by simp
          from less.IH [OF sz(2) dr 2 ids_kl gaps_kl] obtain k1 where
            k1: "fitTree rt ?B windows kl = Inr k1" and
            k1_keep: "\<And>a. get_frame_rect (objects kl a) = get_frame_rect (objects h1 a)
                \<Longrightarrow> get_frame_rect (objects k1 a) = get_frame_rect (objects kl a)"
            by blast
          have res: "fitTree t area windows k = Inr k1"
            unfolding Node Container l Some fitTree_split using kl k1 by simp
          have f_hl: "findWindow windows i hl = findWindow windows i h" for i
            using fitTree_get_id [OF 1] by (intro findWindow_get_id) simp
          have f_kl: "findWindow windows i kl = findWindow windows i h" for i
            using ids_kl fitTree_get_id [OF 1] by (intro findWindow_get_id) simp
          have keep: "get_frame_rect (objects k1 a) = get_frame_rect (objects k a)"
            if eq: "get_frame_rect (objects k a) = get_frame_rect (objects h1 a)" for a
          proof (cases "\<exists>j\<in>set (tileIds rt). findWindow windows j h = Some a")
            case True
            then obtain j where j: "j \<in> set (tileIds rt)" "findWindow windows j h = Some a"
              by blast
            have nl: "\<forall>i\<in>set (tileIds lt). findWindow windows i h \<noteq> Some a"
            proof
              fix i assume i: "i \<in> set (tileIds lt)"
              show "findWindow windows i h \<noteq> Some a"
              proof
                assume "findWindow windows i h = Some a"
                then have "i = j" using j(2) findWindow_Some_id by metis
                then show False using i j(1) disj by auto
              qed
            qed
            have "objects kl a = objects k a"
              using fitTree_local [OF kl, of a] nl fk by simp
            then show ?thesis using k1_keep [of a] eq by simp
          next
            case False
            then have nr: "\<forall>j\<in>set (tileIds rt). findWindow windows j h \<noteq> Some a" by blast
            have "objects h1 a = objects hl a"
              using fitTree_local [OF 2, of a] nr f_hl by simp
            then have "get_frame_rect (objects kl a) = get_frame_rect (objects k a)"
              using kl_keep [of a] eq by simp
            moreover have "objects k1 a = objects kl a"
              using fitTree_local [OF k1, of a] nr f_kl by simp
            ultimately show ?thesis by simp
          qed
          show ?thesis using res keep by blast
        qed
      qed
    qed
  qed
qed

lemma fitTree_twice_frames:
  assumes "distinct (tileIds t)" and "fitTree t area windows h = Inr h1"
  shows "\<exists>h2. fitTree t area windows h1 = Inr h2
           \<and> (\<forall>a. get_frame_rect (objects h2 a) = get_frame_rect (objects h1 a))"
proof -
  have "\<forall>a. get_id (objects h1 a) = get_id (objects h a)"
    using fitTree_get_id [OF assms(2)] by simp
  moreover have "gaps_in h1 = gaps_in h" using fitTree_gaps [OF assms(2)] .
  ultimately show ?thesis using fitTree_again [OF assms, of h1] by auto
qed

text \<open>
  C4 with spacing 10, on the desktop \<open>desk\<close> and the tree of the single tile 7. The first
  \<open>autotile\<close> moves window 7 to the work area shrunk by the spacing. The second, on the
  unchanged tree, compares the frame with the work area itself, finds them different and
  issues the same three window calls again: the frame stays as it was, but the no-op
  branch of \<open>fit\<close> is not taken.
\<close>

theorem fit_twice_moves_again:
  "getSpacing desk = 10
   \<and> hostWorkArea desk (get_current_monitor desk)
       = \<lparr>x = 1930, y = 10, width = 1900, height = 1060\<rparr>
   \<and> (case autotile (leaf (Tile (newTile 7))) desk of
         Inl e \<Rightarrow> False
       | Inr h1 \<Rightarrow>
           get_frame_rect (objects h1 0) = \<lparr>x = 1940, y = 20, width = 1880, height = 1040\<rparr>
           \<and> (case autotile (leaf (Tile (newTile 7))) h1 of
                 Inl e \<Rightarrow> False
               | Inr h2 \<Rightarrow>
                   get_frame_rect (objects h2 0) = get_frame_rect (objects h1 0)
                   \<and> calls h2 = calls h1 @ [Unmaximize 0, MoveFrame 0 1940 20,
                                            MoveResizeFrame 0 1940 20 1880 1040]))"
  by (simp add: autotile_def hostWorkArea_def workArea_def clamp_def getInset_def
      eligible_def TitleBlacklist_def endsWith_def
      getSpacing_def desk_def window7_def leaf_def newTile_def
      findWindow_def moveResize_def unmaximize_def move_frame_def move_resize_frame_def)

section \<open>Tree builder on two monitors\<close>

text \<open>
  The loop over the windows of one slot, started on a fresh root, gives one tile per
  window, in list order.
\<close>

lemma initLoop_tile_tileIds:
  "tileIds (initLoop h (leaf (Tile (newTile i))) ws index area)
     = i # map (\<lambda>w. get_id (objects h w)) ws"
proof (induction ws arbitrary: i index)
  case Nil
  then show ?case by (simp add: leaf_def tileIds_def newTile_def)
next
  case (Cons w ws)
  have "tileIds (initLoop h (leaf (Tile (newTile i))) (w # ws) index area)
          = i # tileIds (initLoop h (leaf (Tile (newTile (get_id (objects h w))))) ws
                  (index + 1) area)"
    by (simp add: leaf_def tileIds_Node newTile_def)
  then show ?case by (simp only: Cons.IH list.map)
qed

lemma initLoop_fresh_tileIds:
  "tileIds (initLoop h (leaf (Container (newContainer Horizontal))) ws 0 area)
     = map (\<lambda>w. get_id (objects h w)) ws"
proof (cases ws)
  case Nil
  then show ?thesis by (simp add: leaf_def tileIds_Node)
next
  case (Cons w ws')
  then show ?thesis
    using initLoop_tile_tileIds [of h "get_id (objects h w)" ws' 1 area]
    by (simp add: leaf_def)
qed

text \<open>
  C1 on a desktop with one workspace and two monitors. Monitor 0 has no eligible
  window; the window 7 is on monitor 1. After \<open>initTree\<close> both slots of the workspace
  refer to the same root object, and the tree of slot (0, 0) holds the tile 7.
\<close>

theorem initTree_shares_root:
  "filter (eligible desk 0) (list_windows desk ! 0) = []
   \<and> (case initTree desk of
         Inl e \<Rightarrow> False
       | Inr (f, h) \<Rightarrow>
           slots f ! 0 ! 0 = slots f ! 0 ! 1
           \<and> tileIds (slotTree f 0 0) = [7]
           \<and> tileIds (slotTree f 0 1) = [7])"
  by (simp add: initTree_def desk_def window7_def eligible_def TitleBlacklist_def endsWith_def
      emptyForest_def upt_rec hostWorkArea_def workArea_def clamp_def getInset_def getSpacing_def
      autotile_def slotTree_def leaf_def newTile_def newContainer_def findWindow_def tileIds_def
      moveResize_def unmaximize_def move_frame_def move_resize_frame_def)

end
